theory Spec2Isabelle
  imports Main "HOL-Library.AList"
begin

section \<open>The Pokedex API of \<open>API Lesson/main.py\<close>\<close>

text \<open>
  The module keeps two globals, the dictionary \<open>pokemon_db\<close> and the counter
  \<open>next_id\<close>, and four request handlers that read and write them. The handlers are
  embedded as functions that take the two globals as a record and give the updated record
  back. A Python \<open>dict\<close> keeps its keys in insertion order, and \<open>list_pokemon\<close> shows
  that order to the caller, so the dictionary is an association list: \<open>d[k] = v\<close> is
  \<open>AList.update\<close> (replace in place, or append a new key at the end), \<open>del d[k]\<close> is
  \<open>AList.delete\<close>, \<open>k in d\<close> is membership in the keys and \<open>d[k]\<close> is \<open>map_of\<close>.
  Python integers are unbounded, hence \<open>int\<close>.
\<close>

subsection \<open>Data\<close>

text \<open>
  The class \<open>PokemonCreate\<close>: the validated request object that \<open>create_pokemon\<close>
  receives. The fields carry the prefix \<open>c_\<close>.
\<close>

record PokemonCreate =
  c_name :: string
  c_type :: string
  c_power_level :: int

text \<open>
  The dictionary \<open>new_pokemon\<close> built by \<open>create_pokemon\<close>, with the keys of
  \<open>PokemonResponse\<close>. The fields carry the prefix \<open>p_\<close>.
\<close>

record Pokemon =
  p_id :: int
  p_name :: string
  p_type :: string
  p_power_level :: int
  p_created_at :: string

text \<open>The module globals.\<close>

record registry =
  pokemon_db :: "(int \<times> Pokemon) list"
  next_id :: int

definition initial :: registry where
  "initial = \<lparr>pokemon_db = [], next_id = 1\<rparr>"

text \<open>
  The failures a request can end in. The handlers raise \<open>HTTPException\<close> with a
  status code and a detail. A request body that does not validate is refused with one
  entry for each failing field: the field and the declared constraint it fails.
\<close>

datatype field = name | type | power_level

datatype constraint = required | ge int | le int

type_synonym error_detail = "field \<times> constraint"

datatype error =
    HTTPException nat string
  | ValidationError "error_detail list"
  | KeyError int
  | ValueError

text \<open>
  \<open>KeyError\<close> is what the subscript \<open>pokemon_db[pokemon_id]\<close> raises on a missing
  key, and \<open>ValueError\<close> is what the interpreter raises when an integer of too many
  digits is written into a string. No handler catches either, so either would be
  answered with status 500.
\<close>

fun status_code :: "error \<Rightarrow> nat" where
  "status_code (HTTPException code detail) = code"
| "status_code (ValidationError errs) = 422"
| "status_code (KeyError k) = 500"
| "status_code ValueError = 500"

subsection \<open>Rendering an integer in a message\<close>

text \<open>
  The f-string \<open>f"... {pokemon_id} ..."\<close> writes the integer in decimal. The
  interpreter converts an integer to a string only up to \<open>sys.int_info.default_max_str_digits\<close>
  digits, the sign not counted, and raises \<open>ValueError\<close> beyond: \<open>decimal\<close> is the
  numeral, \<open>str\<close> the conversion with its limit.
\<close>

definition digit :: "nat \<Rightarrow> char" where
  "digit d = ''0123456789'' ! d"

function str_nat :: "nat \<Rightarrow> string" where
  "str_nat n = (if n < 10 then [digit n] else str_nat (n div 10) @ [digit (n mod 10)])"
  by pat_completeness auto
termination
  by (relation "measure (\<lambda>n. n)") auto

definition decimal :: "int \<Rightarrow> string" where
  "decimal i = (if i < 0 then CHR ''-'' # str_nat (nat (- i)) else str_nat (nat i))"

definition max_str_digits :: nat where
  "max_str_digits = 4300"

definition digits :: "int \<Rightarrow> nat" where
  "digits i = length (str_nat (nat \<bar>i\<bar>))"

definition str :: "int \<Rightarrow> error + string" where
  "str i = (if digits i > max_str_digits then Inl ValueError else Inr (decimal i))"

text \<open>
  What \<open>raise HTTPException(status_code=404, detail=f"Pokemon with ID {pokemon_id} not found")\<close>
  raises: the detail is built first, and where that fails its error is the one raised.
\<close>

definition not_found :: "int \<Rightarrow> error" where
  "not_found pokemon_id =
     (case str pokemon_id of
        Inl e \<Rightarrow> e
      | Inr written \<Rightarrow> HTTPException 404 (''Pokemon with ID '' @ written @ '' not found''))"

subsection \<open>Validation of the request body\<close>

text \<open>
  The JSON body of \<open>POST /pokemon\<close> before validation: each of the three keys is absent
  or holds a value of the declared type. A body with a value of another type under one
  of the keys (a number for the name, a fraction for the power level) is refused as
  well; such bodies are not represented, and nothing below speaks of them.
\<close>

record body =
  b_name :: "string option"
  b_type :: "string option"
  b_power_level :: "int option"

text \<open>
  The declared fields of \<open>PokemonCreate\<close>: \<open>Field(...)\<close> makes each of the three
  required, and \<open>power_level\<close> carries \<open>ge=1\<close> and \<open>le=100\<close>. No constraint is
  declared on the contents of \<open>name\<close> and \<open>type\<close>.
\<close>

definition check_str :: "field \<Rightarrow> string option \<Rightarrow> error_detail list" where
  "check_str field v = (case v of None \<Rightarrow> [(field, required)] | Some x \<Rightarrow> [])"

definition check_power_level :: "int option \<Rightarrow> error_detail list" where
  "check_power_level v =
     (case v of
        None \<Rightarrow> [(power_level, required)]
      | Some p \<Rightarrow>
          if \<not> p \<ge> 1 then [(power_level, ge 1)]
          else if \<not> p \<le> 100 then [(power_level, le 100)]
          else [])"

definition validation_errors :: "body \<Rightarrow> error_detail list" where
  "validation_errors b =
     check_str name (b_name b) @ check_str type (b_type b)
       @ check_power_level (b_power_level b)"

definition validate :: "body \<Rightarrow> error + PokemonCreate" where
  "validate b =
     (case (b_name b, b_type b, b_power_level b) of
        (Some n, Some t, Some p) \<Rightarrow>
          if validation_errors b = []
          then Inr \<lparr>c_name = n, c_type = t, c_power_level = p\<rparr>
          else Inl (ValidationError (validation_errors b))
      | _ \<Rightarrow> Inl (ValidationError (validation_errors b)))"

subsection \<open>The handlers\<close>

definition list_pokemon :: "registry \<Rightarrow> Pokemon list \<times> registry" where
  "list_pokemon s = (map snd (pokemon_db s), s)"

definition get_pokemon :: "int \<Rightarrow> registry \<Rightarrow> (error + Pokemon) \<times> registry" where
  "get_pokemon pokemon_id s =
     (if pokemon_id \<notin> fst ` set (pokemon_db s)
      then (Inl (not_found pokemon_id), s)
      else (case map_of (pokemon_db s) pokemon_id of
              Some pokemon \<Rightarrow> (Inr pokemon, s)
            | None \<Rightarrow> (Inl (KeyError pokemon_id), s)))"

text \<open>\<open>now\<close> is what \<open>datetime.now().isoformat()\<close> gives during the call.\<close>

definition create_pokemon :: "PokemonCreate \<Rightarrow> string \<Rightarrow> registry \<Rightarrow> Pokemon \<times> registry" where
  "create_pokemon pokemon now s =
     (let new_pokemon =
            \<lparr>p_id = next_id s,
             p_name = c_name pokemon,
             p_type = c_type pokemon,
             p_power_level = c_power_level pokemon,
             p_created_at = now\<rparr>;
          s1 = s\<lparr>pokemon_db := AList.update (next_id s) new_pokemon (pokemon_db s)\<rparr>;
          s2 = s1\<lparr>next_id := next_id s1 + 1\<rparr>
      in (new_pokemon, s2))"

definition delete_pokemon :: "int \<Rightarrow> registry \<Rightarrow> (error + unit) \<times> registry" where
  "delete_pokemon pokemon_id s =
     (if pokemon_id \<notin> fst ` set (pokemon_db s)
      then (Inl (not_found pokemon_id), s)
      else (Inr (), s\<lparr>pokemon_db := AList.delete pokemon_id (pokemon_db s)\<rparr>))"

subsection \<open>The routes\<close>

text \<open>
  The decorators bind the handlers to the HTTP methods and paths and fix the status of a
  successful response: 201 for \<open>POST /pokemon\<close>, 204 for \<open>DELETE /pokemon/{id}\<close>, 200
  otherwise. A raised error is answered with its own status. The body of \<open>POST\<close> is
  validated against \<open>PokemonCreate\<close> before \<open>create_pokemon\<close> is called. A request
  with a path parameter carries it as the integer the handler receives, that is, after
  the conversion of the path segment that \<open>pokemon_id: int\<close> asks for.
\<close>

datatype request =
    GET_pokemon
  | GET_pokemon_id int
  | POST_pokemon body
  | DELETE_pokemon_id int

datatype content = Records "Pokemon list" | Record Pokemon | Failure error | No_Content

type_synonym response = "nat \<times> content"

definition failure :: "error \<Rightarrow> response" where
  "failure e = (status_code e, Failure e)"

fun handle :: "request \<Rightarrow> string \<Rightarrow> registry \<Rightarrow> response \<times> registry" where
  "handle GET_pokemon now s =
     (case list_pokemon s of (ps, s') \<Rightarrow> ((200, Records ps), s'))"
| "handle (GET_pokemon_id pokemon_id) now s =
     (case get_pokemon pokemon_id s of
        (Inl e, s') \<Rightarrow> (failure e, s')
      | (Inr p, s') \<Rightarrow> ((200, Record p), s'))"
| "handle (POST_pokemon b) now s =
     (case validate b of
        Inl e \<Rightarrow> (failure e, s)
      | Inr pokemon \<Rightarrow>
          (case create_pokemon pokemon now s of (p, s') \<Rightarrow> ((201, Record p), s')))"
| "handle (DELETE_pokemon_id pokemon_id) now s =
     (case delete_pokemon pokemon_id s of
        (Inl e, s') \<Rightarrow> (failure e, s')
      | (Inr u, s') \<Rightarrow> ((204, No_Content), s'))"

text \<open>
  A run of the server: the requests are served one after the other, each with the clock
  reading of its moment; the run gives the responses in order and the final globals.
\<close>

fun run :: "(request \<times> string) list \<Rightarrow> registry \<Rightarrow> response list \<times> registry" where
  "run [] s = ([], s)"
| "run ((rq, now) # rest) s =
     (case handle rq now s of
        (r, s') \<Rightarrow> (case run rest s' of (rs, s'') \<Rightarrow> (r # rs, s'')))"

text \<open>The records created in a run: those in the 201 responses, in order.\<close>

fun created :: "response list \<Rightarrow> Pokemon list" where
  "created [] = []"
| "created ((code, Record p) # rs) = (if code = 201 then p # created rs else created rs)"
| "created (r # rs) = created rs"

subsection \<open>Reading a decimal back\<close>



subsection \<open>Identifiers in use\<close>

text \<open>The identifiers in use: the keys of \<open>pokemon_db\<close>.\<close>

definition ids :: "registry \<Rightarrow> int set" where
  "ids s = fst ` set (pokemon_db s)"

text \<open>The counter is above every identifier in use.\<close>

definition counter_above_ids :: "registry \<Rightarrow> bool" where
  "counter_above_ids s = (\<forall>k \<in> ids s. k < next_id s)"

section \<open>Properties\<close>

subsection \<open>The rendering of identifiers\<close>
















lemma digits_2: "digits 2 = 1"
  by (simp add: digits_def)

subsection \<open>Validation\<close>

lemma validation_errors_Nil:
  "validation_errors b = [] \<longleftrightarrow>
     (\<exists>n t p. b_name b = Some n \<and> b_type b = Some t \<and> b_power_level b = Some p
        \<and> 1 \<le> p \<and> p \<le> 100)"
  by (auto simp: validation_errors_def check_str_def check_power_level_def
      split: option.splits)

lemma validate_Inr:
  "validate b = Inr c \<longleftrightarrow>
     (b_name b = Some (c_name c) \<and> b_type b = Some (c_type c)
        \<and> b_power_level b = Some (c_power_level c)
        \<and> 1 \<le> c_power_level c \<and> c_power_level c \<le> 100)"
  by (cases c) (auto simp: validate_def validation_errors_def check_str_def check_power_level_def
      split: option.splits)

lemma validate_Inl:
  "validate b = Inl e \<longleftrightarrow> validation_errors b \<noteq> [] \<and> e = ValidationError (validation_errors b)"
  by (auto simp: validate_def validation_errors_def check_str_def check_power_level_def
      split: option.splits)

lemma mem_validation_errors:
  "(f, c) \<in> set (validation_errors b) \<longleftrightarrow>
     f = name \<and> c = required \<and> b_name b = None
     \<or> f = type \<and> c = required \<and> b_type b = None
     \<or> f = power_level \<and> c = required \<and> b_power_level b = None
     \<or> f = power_level \<and> c = ge 1 \<and> (\<exists>p. b_power_level b = Some p \<and> p < 1)
     \<or> f = power_level \<and> c = le 100 \<and> (\<exists>p. b_power_level b = Some p \<and> 100 < p)"
  by (auto simp: validation_errors_def check_str_def check_power_level_def
      split: option.splits)

subsection \<open>Lookups in the dictionary\<close>

lemma map_of_None_ids: "map_of (pokemon_db s) k = None \<longleftrightarrow> k \<notin> ids s"
  by (simp add: ids_def map_of_eq_None_iff)

lemma get_pokemon_present:
  "map_of (pokemon_db s) k = Some r \<Longrightarrow> get_pokemon k s = (Inr r, s)"
  using map_of_None_ids [of s k] by (simp add: get_pokemon_def ids_def)

lemma get_pokemon_absent:
  "k \<notin> ids s \<Longrightarrow> get_pokemon k s = (Inl (not_found k), s)"
  by (simp add: get_pokemon_def ids_def)

lemma create_pokemon_eq:
  "create_pokemon c now s =
     (\<lparr>p_id = next_id s, p_name = c_name c, p_type = c_type c,
        p_power_level = c_power_level c, p_created_at = now\<rparr>,
      \<lparr>pokemon_db = AList.update (next_id s)
          \<lparr>p_id = next_id s, p_name = c_name c, p_type = c_type c,
             p_power_level = c_power_level c, p_created_at = now\<rparr> (pokemon_db s),
        next_id = next_id s + 1\<rparr>)"
  by (simp add: create_pokemon_def Let_def)

section \<open>The claims\<close>

subsection \<open>C1: what validation refuses\<close>

text \<open>
  C1, as stated, fails on the code: a request whose name and type are both the empty
  string, with a power level in range, is answered with 201 and its record is stored.
  \<open>PokemonCreate\<close> declares \<open>name\<close> and \<open>type\<close> as required strings with no
  constraint on their contents.
\<close>

theorem empty_name_accepted:
  "handle (POST_pokemon \<lparr>b_name = Some '''', b_type = Some '''', b_power_level = Some 50\<rparr>)
      ''2025-11-04T10:00:00'' initial =
     ((201, Record \<lparr>p_id = 1, p_name = '''', p_type = '''', p_power_level = 50,
                      p_created_at = ''2025-11-04T10:00:00''\<rparr>),
      \<lparr>pokemon_db = [(1, \<lparr>p_id = 1, p_name = '''', p_type = '''', p_power_level = 50,
                            p_created_at = ''2025-11-04T10:00:00''\<rparr>)],
        next_id = 2\<rparr>)"
  by (simp add: validate_def validation_errors_def check_str_def check_power_level_def
      create_pokemon_eq initial_def)

text \<open>
  C1, amended: an empty string is accepted as a name or as a type. When the name and the
  type are strings, empty or not, and the power level is an integer in 1..100,
  \<open>POST /pokemon\<close> answers 201 and the record is stored with the name and the type as
  sent. When the name, the type or the power level is missing, or the power level is an
  integer outside 1..100, it answers 422 with the validation error, which lists each
  failing field with the constraint it fails and nothing else, and the registry is left
  as it was; this is stated for power levels of at most 4300 digits, the longest
  integer literal the interpreter reads.
\<close>

theorem create_validation:
  "(b_name b = Some n \<and> b_type b = Some t \<and> b_power_level b = Some p \<and> 1 \<le> p \<and> p \<le> 100 \<longrightarrow>
      (\<exists>s'. handle (POST_pokemon b) now s =
              ((201, Record \<lparr>p_id = next_id s, p_name = n, p_type = t, p_power_level = p,
                               p_created_at = now\<rparr>), s')
         \<and> map_of (pokemon_db s') (next_id s) =
              Some \<lparr>p_id = next_id s, p_name = n, p_type = t, p_power_level = p,
                     p_created_at = now\<rparr>))
   \<and> ((\<forall>q. b_power_level b = Some q \<longrightarrow> digits q \<le> max_str_digits)
        \<and> (b_name b = None \<or> b_type b = None \<or> b_power_level b = None
             \<or> (\<exists>q. b_power_level b = Some q \<and> (q < 1 \<or> 100 < q))) \<longrightarrow>
        validation_errors b \<noteq> []
        \<and> handle (POST_pokemon b) now s
             = ((422, Failure (ValidationError (validation_errors b))), s)
        \<and> (\<forall>f c. (f, c) \<in> set (validation_errors b) \<longleftrightarrow>
              f = name \<and> c = required \<and> b_name b = None
              \<or> f = type \<and> c = required \<and> b_type b = None
              \<or> f = power_level \<and> c = required \<and> b_power_level b = None
              \<or> f = power_level \<and> c = ge 1 \<and> (\<exists>q. b_power_level b = Some q \<and> q < 1)
              \<or> f = power_level \<and> c = le 100 \<and> (\<exists>q. b_power_level b = Some q \<and> 100 < q)))"
proof (intro conjI impI)
  assume "b_name b = Some n \<and> b_type b = Some t \<and> b_power_level b = Some p \<and> 1 \<le> p \<and> p \<le> 100"
  then have "validate b = Inr \<lparr>c_name = n, c_type = t, c_power_level = p\<rparr>"
    by (simp add: validate_Inr)
  then show "\<exists>s'. handle (POST_pokemon b) now s =
              ((201, Record \<lparr>p_id = next_id s, p_name = n, p_type = t, p_power_level = p,
                               p_created_at = now\<rparr>), s')
         \<and> map_of (pokemon_db s') (next_id s) =
              Some \<lparr>p_id = next_id s, p_name = n, p_type = t, p_power_level = p,
                     p_created_at = now\<rparr>"
    by (simp add: create_pokemon_eq AList.update_conv')
next
  assume a: "(\<forall>q. b_power_level b = Some q \<longrightarrow> digits q \<le> max_str_digits)
        \<and> (b_name b = None \<or> b_type b = None \<or> b_power_level b = None
             \<or> (\<exists>q. b_power_level b = Some q \<and> (q < 1 \<or> 100 < q)))"
  then show e: "validation_errors b \<noteq> []"
    unfolding validation_errors_Nil by auto
  then have "validate b = Inl (ValidationError (validation_errors b))"
    by (simp add: validate_Inl)
  then show "handle (POST_pokemon b) now s
      = ((422, Failure (ValidationError (validation_errors b))), s)"
    by (simp add: failure_def)
  show "\<forall>f c. (f, c) \<in> set (validation_errors b) \<longleftrightarrow>
              f = name \<and> c = required \<and> b_name b = None
              \<or> f = type \<and> c = required \<and> b_type b = None
              \<or> f = power_level \<and> c = required \<and> b_power_level b = None
              \<or> f = power_level \<and> c = ge 1 \<and> (\<exists>q. b_power_level b = Some q \<and> q < 1)
              \<or> f = power_level \<and> c = le 100 \<and> (\<exists>q. b_power_level b = Some q \<and> 100 < q)"
    by (simp add: mem_validation_errors)
qed

text \<open>
  The amended C1 at concrete requests: one with empty name and type and power level 50,
  accepted and stored, and one with no name and power level 0, refused with both
  failures listed.
\<close>

theorem create_validation_witness:
  "(\<exists>s'. handle (POST_pokemon \<lparr>b_name = Some '''', b_type = Some '''', b_power_level = Some 50\<rparr>)
            ''t'' initial
          = ((201, Record \<lparr>p_id = 1, p_name = '''', p_type = '''', p_power_level = 50,
                           p_created_at = ''t''\<rparr>), s')
        \<and> map_of (pokemon_db s') 1
          = Some \<lparr>p_id = 1, p_name = '''', p_type = '''', p_power_level = 50,
                   p_created_at = ''t''\<rparr>)
   \<and> handle (POST_pokemon \<lparr>b_name = None, b_type = Some ''Electric'', b_power_level = Some 0\<rparr>)
         ''t'' initial =
       ((422, Failure (ValidationError [(name, required), (power_level, ge 1)])), initial)"
proof -
  let ?b0 = "\<lparr>b_name = None, b_type = Some ''Electric'', b_power_level = Some 0\<rparr>"
  let ?b1 = "\<lparr>b_name = Some [], b_type = Some [], b_power_level = Some 50\<rparr>"
  have e0: "validation_errors ?b0 = [(name, required), (power_level, ge 1)]"
    by (simp add: validation_errors_def check_str_def check_power_level_def)
  have d0: "\<forall>q. b_power_level ?b0 = Some q \<longrightarrow> digits q \<le> max_str_digits"
    by (simp add: digits_def max_str_digits_def)
  from d0 create_validation [of ?b0 _ _ _ "''t''" initial]
  have "handle (POST_pokemon ?b0) ''t'' initial
      = ((422, Failure (ValidationError (validation_errors ?b0))), initial)"
    by simp
  with e0 have r0: "handle (POST_pokemon ?b0) ''t'' initial =
      ((422, Failure (ValidationError [(name, required), (power_level, ge 1)])), initial)"
    by simp
  from create_validation [of ?b1 "[]" "[]" 50 "''t''" initial]
  have r1: "\<exists>s'. handle (POST_pokemon ?b1) ''t'' initial
          = ((201, Record \<lparr>p_id = 1, p_name = [], p_type = [], p_power_level = 50,
                           p_created_at = ''t''\<rparr>), s')
        \<and> map_of (pokemon_db s') 1
          = Some \<lparr>p_id = 1, p_name = [], p_type = [], p_power_level = 50,
                   p_created_at = ''t''\<rparr>"
    by (simp add: initial_def)
  from r0 r1 show ?thesis by simp
qed

subsection \<open>C2: the accepted power levels\<close>

text \<open>
  C2: with a name and a type present, \<open>POST /pokemon\<close> is refused with a validation
  error at power levels 0 and 101 and succeeds at 1 and 100; over all integers, it
  succeeds exactly on 1..100 and is refused with a validation error exactly outside.
\<close>

theorem power_level_range:
  "fst (handle (POST_pokemon \<lparr>b_name = Some n, b_type = Some t, b_power_level = Some 0\<rparr>) now s)
     = (422, Failure (ValidationError [(power_level, ge 1)]))
   \<and> fst (handle (POST_pokemon \<lparr>b_name = Some n, b_type = Some t, b_power_level = Some 101\<rparr>) now s)
     = (422, Failure (ValidationError [(power_level, le 100)]))
   \<and> fst (handle (POST_pokemon \<lparr>b_name = Some n, b_type = Some t, b_power_level = Some 1\<rparr>) now s)
     = (201, Record \<lparr>p_id = next_id s, p_name = n, p_type = t, p_power_level = 1,
                      p_created_at = now\<rparr>)
   \<and> fst (handle (POST_pokemon \<lparr>b_name = Some n, b_type = Some t, b_power_level = Some 100\<rparr>) now s)
     = (201, Record \<lparr>p_id = next_id s, p_name = n, p_type = t, p_power_level = 100,
                      p_created_at = now\<rparr>)
   \<and> ((1 \<le> p \<and> p \<le> 100) =
        (fst (handle (POST_pokemon \<lparr>b_name = Some n, b_type = Some t, b_power_level = Some p\<rparr>) now s)
          = (201, Record \<lparr>p_id = next_id s, p_name = n, p_type = t, p_power_level = p,
                           p_created_at = now\<rparr>)))
   \<and> ((p < 1 \<or> 100 < p) =
        (\<exists>errs. handle (POST_pokemon \<lparr>b_name = Some n, b_type = Some t, b_power_level = Some p\<rparr>) now s
          = ((422, Failure (ValidationError errs)), s)))"
  by (auto simp: validate_def validation_errors_def check_str_def check_power_level_def
      create_pokemon_eq failure_def)

text \<open>C2 at the name Pikachu, the empty registry and the power level 57.\<close>

theorem power_level_range_witness:
  "fst (handle (POST_pokemon \<lparr>b_name = Some ''Pikachu'', b_type = Some ''Electric'',
                                 b_power_level = Some 57\<rparr>) ''t'' initial)
     = (201, Record \<lparr>p_id = 1, p_name = ''Pikachu'', p_type = ''Electric'', p_power_level = 57,
                      p_created_at = ''t''\<rparr>)"
  using power_level_range [of "''Pikachu''" "''Electric''" "''t''" initial 57]
  by (simp add: initial_def)

subsection \<open>C3: Get\<close>




subsection \<open>C5: Delete\<close>

lemma delete_pokemon_present:
  "k \<in> ids s \<Longrightarrow>
     delete_pokemon k s = (Inr (), s\<lparr>pokemon_db := AList.delete k (pokemon_db s)\<rparr>)"
  by (simp add: delete_pokemon_def ids_def)

lemma delete_pokemon_absent:
  "k \<notin> ids s \<Longrightarrow> delete_pokemon k s = (Inl (not_found k), s)"
  by (simp add: delete_pokemon_def ids_def)




subsection \<open>C7: Get after Create\<close>

lemma get_after_create:
  "create_pokemon c now s = (r, s') \<Longrightarrow> get_pokemon (p_id r) s' = (Inr r, s')"
proof -
  assume "create_pokemon c now s = (r, s')"
  then have "map_of (pokemon_db s') (p_id r) = Some r"
    by (auto simp: create_pokemon_eq AList.update_conv')
  then show ?thesis by (rule get_pokemon_present)
qed

text \<open>
  C7: in every registry, a request body that validates is answered by \<open>POST /pokemon\<close>
  with 201 and a record \<open>r\<close>, and \<open>GET /pokemon/{id}\<close> with the identifier of \<open>r\<close>,
  served next, is answered with 200 and the same record \<open>r\<close>. The same holds of the
  handlers called directly.
\<close>

theorem get_returns_created:
  "(validate b = Inr c \<longrightarrow>
      (\<exists>r s'. handle (POST_pokemon b) now s = ((201, Record r), s')
         \<and> create_pokemon c now s = (r, s')
         \<and> get_pokemon (p_id r) s' = (Inr r, s')
         \<and> handle (GET_pokemon_id (p_id r)) now' s' = ((200, Record r), s')))
   \<and> (handle (POST_pokemon b) now s = ((201, Record r), s') \<longrightarrow>
        handle (GET_pokemon_id (p_id r)) now' s' = ((200, Record r), s'))"
proof (intro conjI impI)
  assume v: "validate b = Inr c"
  obtain r s' where c: "create_pokemon c now s = (r, s')" by (cases "create_pokemon c now s")
  from c have g: "get_pokemon (p_id r) s' = (Inr r, s')" by (rule get_after_create)
  have "handle (POST_pokemon b) now s = ((201, Record r), s')"
    by (simp add: v c)
  moreover have "handle (GET_pokemon_id (p_id r)) now' s' = ((200, Record r), s')"
    by (simp add: g)
  ultimately show "\<exists>r s'. handle (POST_pokemon b) now s = ((201, Record r), s')
         \<and> create_pokemon c now s = (r, s')
         \<and> get_pokemon (p_id r) s' = (Inr r, s')
         \<and> handle (GET_pokemon_id (p_id r)) now' s' = ((200, Record r), s')"
    using c g by blast
next
  assume h: "handle (POST_pokemon b) now s = ((201, Record r), s')"
  then obtain c where c: "create_pokemon c now s = (r, s')"
    by (auto simp: failure_def split: sum.splits prod.splits)
  then have g: "get_pokemon (p_id r) s' = (Inr r, s')" by (rule get_after_create)
  show "handle (GET_pokemon_id (p_id r)) now' s' = ((200, Record r), s')"
    by (simp add: g)
qed

text \<open>
  C7 on the scenario of the specification: Pikachu is created in the empty registry with
  identifier 1, and \<open>GET /pokemon/1\<close> answers with the record just returned.
\<close>

theorem get_returns_created_witness:
  "handle (POST_pokemon \<lparr>b_name = Some ''Pikachu'', b_type = Some ''Electric'',
                           b_power_level = Some 85\<rparr>) ''t0'' initial
     = ((201, Record \<lparr>p_id = 1, p_name = ''Pikachu'', p_type = ''Electric'',
                       p_power_level = 85, p_created_at = ''t0''\<rparr>),
        \<lparr>pokemon_db = [(1, \<lparr>p_id = 1, p_name = ''Pikachu'', p_type = ''Electric'',
                              p_power_level = 85, p_created_at = ''t0''\<rparr>)], next_id = 2\<rparr>)
   \<and> handle (GET_pokemon_id 1) ''t1''
        \<lparr>pokemon_db = [(1, \<lparr>p_id = 1, p_name = ''Pikachu'', p_type = ''Electric'',
                              p_power_level = 85, p_created_at = ''t0''\<rparr>)], next_id = 2\<rparr>
     = ((200, Record \<lparr>p_id = 1, p_name = ''Pikachu'', p_type = ''Electric'',
                       p_power_level = 85, p_created_at = ''t0''\<rparr>),
        \<lparr>pokemon_db = [(1, \<lparr>p_id = 1, p_name = ''Pikachu'', p_type = ''Electric'',
                              p_power_level = 85, p_created_at = ''t0''\<rparr>)], next_id = 2\<rparr>)"
proof -
  let ?b = "\<lparr>b_name = Some ''Pikachu'', b_type = Some ''Electric'', b_power_level = Some 85\<rparr>"
  let ?r = "\<lparr>p_id = 1, p_name = ''Pikachu'', p_type = ''Electric'',
              p_power_level = 85, p_created_at = ''t0''\<rparr>"
  let ?s = "\<lparr>pokemon_db = [(1, ?r)], next_id = 2\<rparr>"
  have post: "handle (POST_pokemon ?b) ''t0'' initial = ((201, Record ?r), ?s)"
    by (simp add: validate_def validation_errors_def check_str_def check_power_level_def
        create_pokemon_eq initial_def)
  with get_returns_created [of ?b _ "''t0''" initial "''t1''" ?r ?s]
  have "handle (GET_pokemon_id (p_id ?r)) ''t1'' ?s = ((200, Record ?r), ?s)" by blast
  with post show ?thesis by simp
qed

subsection \<open>C10: what Delete, Get and List leave alone\<close>

text \<open>
  C10: deleting a present identifier \<open>k\<close> succeeds and removes the entry of \<open>k\<close> and
  no other: the remaining entries are the old ones in their old order, every other
  identifier maps to the record it mapped to, and \<open>next_id\<close> keeps its value.
  \<open>get_pokemon\<close> and \<open>list_pokemon\<close> keep \<open>next_id\<close> as well.
\<close>

theorem delete_frame:
  "(k \<in> ids s \<longrightarrow>
      (\<exists>s'. delete_pokemon k s = (Inr (), s')
         \<and> pokemon_db s' = filter (\<lambda>e. fst e \<noteq> k) (pokemon_db s)
         \<and> (\<forall>j. j \<noteq> k \<longrightarrow> map_of (pokemon_db s') j = map_of (pokemon_db s) j)
         \<and> ids s' = ids s - {k}
         \<and> next_id s' = next_id s))
   \<and> next_id (snd (get_pokemon j s)) = next_id s
   \<and> next_id (snd (list_pokemon s)) = next_id s"
proof (intro conjI impI)
  assume k: "k \<in> ids s"
  let ?s' = "s\<lparr>pokemon_db := AList.delete k (pokemon_db s)\<rparr>"
  have flt: "AList.delete k (pokemon_db s) = filter (\<lambda>e. fst e \<noteq> k) (pokemon_db s)"
    by (induction "pokemon_db s") (auto simp: AList.delete_eq intro: filter_cong)
  have "delete_pokemon k s = (Inr (), ?s')" using k by (rule delete_pokemon_present)
  moreover have "pokemon_db ?s' = filter (\<lambda>e. fst e \<noteq> k) (pokemon_db s)"
    using flt by simp
  moreover have "\<forall>j. j \<noteq> k \<longrightarrow> map_of (pokemon_db ?s') j = map_of (pokemon_db s) j"
    by simp
  moreover have "ids ?s' = ids s - {k}"
    unfolding ids_def using flt by auto
  moreover have "next_id ?s' = next_id s" by simp
  ultimately show "\<exists>s'. delete_pokemon k s = (Inr (), s')
         \<and> pokemon_db s' = filter (\<lambda>e. fst e \<noteq> k) (pokemon_db s)
         \<and> (\<forall>j. j \<noteq> k \<longrightarrow> map_of (pokemon_db s') j = map_of (pokemon_db s) j)
         \<and> ids s' = ids s - {k}
         \<and> next_id s' = next_id s"
    by blast
next
  show "next_id (snd (get_pokemon j s)) = next_id s"
    by (simp add: get_pokemon_def split: option.splits)
next
  show "next_id (snd (list_pokemon s)) = next_id s"
    by (simp add: list_pokemon_def)
qed

text \<open>
  C10 on a registry with records under 1 and 2 and the counter at 3: deleting 1 leaves
  the entry of 2 and the counter.
\<close>

theorem delete_frame_witness:
  "delete_pokemon 1
      \<lparr>pokemon_db =
         [(1, \<lparr>p_id = 1, p_name = ''Pikachu'', p_type = ''Electric'',
               p_power_level = 85, p_created_at = ''t0''\<rparr>),
          (2, \<lparr>p_id = 2, p_name = ''Eevee'', p_type = ''Normal'',
               p_power_level = 40, p_created_at = ''t1''\<rparr>)],
       next_id = 3\<rparr>
   = (Inr (),
      \<lparr>pokemon_db =
         [(2, \<lparr>p_id = 2, p_name = ''Eevee'', p_type = ''Normal'',
               p_power_level = 40, p_created_at = ''t1''\<rparr>)],
       next_id = 3\<rparr>)"
proof -
  let ?r1 = "\<lparr>p_id = 1, p_name = ''Pikachu'', p_type = ''Electric'',
               p_power_level = 85, p_created_at = ''t0''\<rparr>"
  let ?r2 = "\<lparr>p_id = 2, p_name = ''Eevee'', p_type = ''Normal'',
               p_power_level = 40, p_created_at = ''t1''\<rparr>"
  let ?s = "\<lparr>pokemon_db = [(1, ?r1), (2, ?r2)], next_id = 3\<rparr>"
  have "1 \<in> ids ?s" by (simp add: ids_def)
  with delete_frame [of 1 ?s]
  obtain s' where d: "delete_pokemon 1 ?s = (Inr (), s')"
    and db: "pokemon_db s' = filter (\<lambda>e. fst e \<noteq> 1) (pokemon_db ?s)"
    and n: "next_id s' = next_id ?s"
    by blast
  from db n have "s' = \<lparr>pokemon_db = [(2, ?r2)], next_id = 3\<rparr>" by (cases s') simp
  with d show ?thesis by simp
qed

subsection \<open>C6: List\<close>

lemma get_pokemon_Inr: "get_pokemon k s = (Inr r, s) \<longleftrightarrow> map_of (pokemon_db s) k = Some r"
proof (cases "map_of (pokemon_db s) k")
  case None
  then have "k \<notin> ids s" by (simp add: map_of_None_ids)
  with None show ?thesis by (simp add: get_pokemon_absent)
next
  case (Some r')
  then show ?thesis by (simp add: get_pokemon_present)
qed

text \<open>
  C6: \<open>list_pokemon\<close> has no failure among its results, \<open>GET /pokemon\<close> always
  answers 200, and the registry afterwards is the registry before. In a dictionary
  (an association list whose keys are distinct) the sequence returned holds exactly the
  records that \<open>get_pokemon\<close> finds under some identifier, one for each identifier in
  use. On the empty dictionary it is the empty sequence.
\<close>

theorem list_pokemon_all:
  "snd (list_pokemon s) = s
   \<and> handle GET_pokemon now s = ((200, Records (fst (list_pokemon s))), s)
   \<and> (distinct (map fst (pokemon_db s)) \<longrightarrow>
        (\<forall>r. r \<in> set (fst (list_pokemon s)) \<longleftrightarrow> (\<exists>k. get_pokemon k s = (Inr r, s)))
        \<and> length (fst (list_pokemon s)) = card (ids s))
   \<and> (pokemon_db s = [] \<longrightarrow>
        list_pokemon s = ([], s) \<and> handle GET_pokemon now s = ((200, Records []), s))"
proof (intro conjI impI allI)
  show "snd (list_pokemon s) = s" by (simp add: list_pokemon_def)
  show "handle GET_pokemon now s = ((200, Records (fst (list_pokemon s))), s)"
    by (simp add: list_pokemon_def)
next
  fix r assume d: "distinct (map fst (pokemon_db s))"
  have "r \<in> set (fst (list_pokemon s)) \<longleftrightarrow> (\<exists>k. (k, r) \<in> set (pokemon_db s))"
    by (force simp: list_pokemon_def)
  also have "\<dots> \<longleftrightarrow> (\<exists>k. map_of (pokemon_db s) k = Some r)"
    using d by simp
  finally show "r \<in> set (fst (list_pokemon s)) \<longleftrightarrow> (\<exists>k. get_pokemon k s = (Inr r, s))"
    by (simp add: get_pokemon_Inr)
next
  assume d: "distinct (map fst (pokemon_db s))"
  have "card (ids s) = length (map fst (pokemon_db s))"
    unfolding ids_def using distinct_card [OF d] by simp
  then show "length (fst (list_pokemon s)) = card (ids s)"
    by (simp add: list_pokemon_def)
next
  assume "pokemon_db s = []"
  then show "list_pokemon s = ([], s)" by (simp add: list_pokemon_def)
  then show "handle GET_pokemon now s = ((200, Records []), s)" by simp
qed

text \<open>
  C6 on a registry with records under 1 and 2, listed in that order, and on the empty
  registry.
\<close>

theorem list_pokemon_all_witness:
  "length (fst (list_pokemon
      \<lparr>pokemon_db =
         [(1, \<lparr>p_id = 1, p_name = ''Pikachu'', p_type = ''Electric'',
               p_power_level = 85, p_created_at = ''t0''\<rparr>),
          (2, \<lparr>p_id = 2, p_name = ''Eevee'', p_type = ''Normal'',
               p_power_level = 40, p_created_at = ''t1''\<rparr>)],
       next_id = 3\<rparr>)) = 2
   \<and> handle GET_pokemon ''t'' initial = ((200, Records []), initial)"
proof -
  let ?r1 = "\<lparr>p_id = 1, p_name = ''Pikachu'', p_type = ''Electric'',
               p_power_level = 85, p_created_at = ''t0''\<rparr>"
  let ?r2 = "\<lparr>p_id = 2, p_name = ''Eevee'', p_type = ''Normal'',
               p_power_level = 40, p_created_at = ''t1''\<rparr>"
  let ?s = "\<lparr>pokemon_db = [(1, ?r1), (2, ?r2)], next_id = 3\<rparr>"
  have "distinct (map fst (pokemon_db ?s))" by simp
  with list_pokemon_all [of ?s]
  have "length (fst (list_pokemon ?s)) = card (ids ?s)" by blast
  moreover have "card (ids ?s) = 2" by (simp add: ids_def)
  moreover have "pokemon_db initial = []" by (simp add: initial_def)
  with list_pokemon_all [of initial "''t''"]
  have "handle GET_pokemon ''t'' initial = ((200, Records []), initial)" by blast
  ultimately show ?thesis by simp
qed

subsection \<open>Runs of the server\<close>

lemma update_fresh: "k \<notin> fst ` set al \<Longrightarrow> AList.update k v al = al @ [(k, v)]"
  by (induction al) auto

lemma create_pokemon_next_id:
  "create_pokemon c now s = (r, s') \<Longrightarrow> p_id r = next_id s \<and> next_id s' = next_id s + 1"
  by (auto simp: create_pokemon_eq)

lemma create_pokemon_fresh:
  assumes "counter_above_ids s" and "create_pokemon c now s = (r, s')"
  shows "pokemon_db s' = pokemon_db s @ [(next_id s, r)]"
proof -
  from assms(1) have "next_id s \<notin> fst ` set (pokemon_db s)"
    by (auto simp: counter_above_ids_def ids_def)
  with assms(2) show ?thesis by (auto simp: create_pokemon_eq update_fresh)
qed

lemma create_pokemon_ids:
  "create_pokemon c now s = (r, s') \<Longrightarrow> ids s' = insert (next_id s) (ids s)"
proof -
  assume "create_pokemon c now s = (r, s')"
  then have "pokemon_db s' = AList.update (next_id s) r (pokemon_db s)"
    by (auto simp: create_pokemon_eq)
  then show ?thesis by (simp add: ids_def AList.dom_update)
qed

lemma delete_ids_subset: "ids (s\<lparr>pokemon_db := AList.delete k (pokemon_db s)\<rparr>) \<subseteq> ids s"
  using AList.dom_delete_subset [of k "pokemon_db s"] by (simp add: ids_def)

text \<open>What one request does to the counter and to the identifiers handed out.\<close>

lemma handle_cases:
  assumes "handle rq now s = (r, s')"
  shows "(created (r # rs) = created rs \<and> s' = s)
       \<or> (created (r # rs) = created rs \<and> (\<exists>k. rq = DELETE_pokemon_id k) \<and> next_id s' = next_id s
            \<and> ids s' \<subseteq> ids s \<and> r = (204, No_Content))
       \<or> (\<exists>b c p. rq = POST_pokemon b \<and> validate b = Inr c \<and> create_pokemon c now s = (p, s')
            \<and> r = (201, Record p))"
proof (cases rq)
  case GET_pokemon
  with assms show ?thesis by (auto simp: list_pokemon_def)
next
  case (GET_pokemon_id k)
  with assms show ?thesis
    by (auto simp: get_pokemon_def failure_def split: option.splits if_splits)
next
  case (POST_pokemon b)
  with assms show ?thesis
    by (cases "validate b") (auto simp: failure_def validate_Inl split: prod.splits)
next
  case (DELETE_pokemon_id k)
  show ?thesis
  proof (cases "k \<in> ids s")
    case True
    with assms DELETE_pokemon_id
    have "r = (204, No_Content)" "s' = s\<lparr>pokemon_db := AList.delete k (pokemon_db s)\<rparr>"
      by (simp_all add: delete_pokemon_present)
    with DELETE_pokemon_id delete_ids_subset [of k s] show ?thesis by simp
  next
    case False
    with assms DELETE_pokemon_id show ?thesis
      by (auto simp: delete_pokemon_absent failure_def)
  qed
qed

lemma handle_counter_above_ids:
  assumes "counter_above_ids s" and "handle rq now s = (r, s')"
  shows "counter_above_ids s'"
  using handle_cases [OF assms(2), of "[]"]
proof (elim disjE exE conjE)
  assume "s' = s" with assms(1) show ?thesis by simp
next
  assume "next_id s' = next_id s" "ids s' \<subseteq> ids s"
  with assms(1) show ?thesis by (auto simp: counter_above_ids_def)
next
  fix b c p assume c: "create_pokemon c now s = (p, s')"
  from c have "ids s' = insert (next_id s) (ids s)" by (rule create_pokemon_ids)
  moreover from c have "next_id s' = next_id s + 1" by (simp add: create_pokemon_next_id)
  ultimately show ?thesis using assms(1) by (auto simp: counter_above_ids_def)
qed

lemma handle_distinct:
  assumes "distinct (map fst (pokemon_db s))" and "handle rq now s = (r, s')"
  shows "distinct (map fst (pokemon_db s'))"
proof (cases rq)
  case GET_pokemon
  with assms show ?thesis by (auto simp: list_pokemon_def)
next
  case (GET_pokemon_id k)
  with assms show ?thesis
    by (auto simp: get_pokemon_def split: option.splits if_splits)
next
  case (POST_pokemon b)
  with assms show ?thesis
    by (cases "validate b") (auto simp: create_pokemon_eq AList.distinct_update)
next
  case (DELETE_pokemon_id k)
  with assms show ?thesis
    by (auto simp: delete_pokemon_def AList.distinct_delete split: if_splits)
qed

lemma run_invariants:
  "run reqs s0 = (rs, s) \<Longrightarrow> counter_above_ids s0 \<Longrightarrow> distinct (map fst (pokemon_db s0)) \<Longrightarrow>
     counter_above_ids s \<and> distinct (map fst (pokemon_db s))"
proof (induction reqs arbitrary: s0 rs)
  case Nil
  then show ?case by simp
next
  case (Cons e reqs)
  obtain rq now where e: "e = (rq, now)" by (cases e)
  obtain r s1 where h: "handle rq now s0 = (r, s1)" by (cases "handle rq now s0")
  obtain rs' s2 where t: "run reqs s1 = (rs', s2)" by (cases "run reqs s1")
  from Cons.prems(1) e h t have "s2 = s" by simp
  moreover have "counter_above_ids s1" using Cons.prems(2) h by (rule handle_counter_above_ids)
  moreover have "distinct (map fst (pokemon_db s1))" using Cons.prems(3) h by (rule handle_distinct)
  ultimately show ?case using Cons.IH [of s1 rs'] t by simp
qed

lemma initial_invariants: "counter_above_ids initial \<and> distinct (map fst (pokemon_db initial))"
  by (simp add: counter_above_ids_def ids_def initial_def)

lemma run_created_ids:
  "run reqs s0 = (rs, s) \<Longrightarrow>
     map p_id (created rs) = [next_id s0 .. next_id s0 + int (length (created rs)) - 1]
     \<and> next_id s = next_id s0 + int (length (created rs))"
proof (induction reqs arbitrary: s0 rs)
  case Nil
  then show ?case by simp
next
  case (Cons e reqs)
  obtain rq now where e: "e = (rq, now)" by (cases e)
  obtain r s1 where h: "handle rq now s0 = (r, s1)" by (cases "handle rq now s0")
  obtain rs' s2 where t: "run reqs s1 = (rs', s2)" by (cases "run reqs s1")
  from Cons.prems e h t have rs: "rs = r # rs'" and s2: "s2 = s" by simp_all
  note IH = Cons.IH [OF t [unfolded s2]]
  from handle_cases [OF h, of rs'] show ?case
  proof (elim disjE exE conjE)
    assume "created (r # rs') = created rs'" "s1 = s0"
    with IH rs show ?thesis by simp
  next
    assume "created (r # rs') = created rs'" "next_id s1 = next_id s0"
    with IH rs show ?thesis by simp
  next
    fix b c p assume c: "create_pokemon c now s0 = (p, s1)" and r: "r = (201, Record p)"
    from c have n: "p_id p = next_id s0" "next_id s1 = next_id s0 + 1"
      using create_pokemon_next_id by blast+
    have "[next_id s0 .. next_id s0 + int (length (created rs'))]
        = next_id s0 # [next_id s0 + 1 .. next_id s0 + int (length (created rs'))]"
      by (rule upto_rec1) simp
    with IH n r rs show ?thesis by (simp add: add.commute add.left_commute)
  qed
qed

subsection \<open>C4: sequential identifiers\<close>

text \<open>
  C4: take any sequence of requests served from the start of the process. The
  identifiers of the records created along the way are 1, 2, 3, ... in the order of
  creation, hence strictly increasing and never repeated, whatever was deleted in
  between, and the counter ends one above their number. A valid \<open>POST /pokemon\<close>
  served next is answered with 201 and the full record, whose identifier is the counter
  and is greater than every identifier handed out before; the record is stored under
  that identifier and the counter moves up by one.
\<close>

theorem sequential_ids:
  "run reqs initial = (rs, s) \<longrightarrow>
     map p_id (created rs) = [1 .. int (length (created rs))]
     \<and> sorted_wrt (<) (map p_id (created rs))
     \<and> distinct (map p_id (created rs))
     \<and> next_id s = 1 + int (length (created rs))
     \<and> (\<forall>b c. validate b = Inr c \<longrightarrow>
          (\<exists>r s'. handle (POST_pokemon b) now s = ((201, Record r), s')
             \<and> r = \<lparr>p_id = next_id s, p_name = c_name c, p_type = c_type c,
                     p_power_level = c_power_level c, p_created_at = now\<rparr>
             \<and> (\<forall>p \<in> set (created rs). p_id p < p_id r)
             \<and> map_of (pokemon_db s') (p_id r) = Some r
             \<and> next_id s' = next_id s + 1))"
proof
  assume run: "run reqs initial = (rs, s)"
  let ?n = "int (length (created rs))"
  from run_created_ids [OF run]
  have ids: "map p_id (created rs) = [1 .. ?n]" and nxt: "next_id s = 1 + ?n"
    by (simp_all add: initial_def)
  have below: "\<forall>p \<in> set (created rs). p_id p < next_id s"
  proof
    fix p assume "p \<in> set (created rs)"
    then have "p_id p \<in> set (map p_id (created rs))" by simp
    with ids nxt show "p_id p < next_id s" by simp
  qed
  have post: "\<forall>b c. validate b = Inr c \<longrightarrow>
          (\<exists>r s'. handle (POST_pokemon b) now s = ((201, Record r), s')
             \<and> r = \<lparr>p_id = next_id s, p_name = c_name c, p_type = c_type c,
                     p_power_level = c_power_level c, p_created_at = now\<rparr>
             \<and> (\<forall>p \<in> set (created rs). p_id p < p_id r)
             \<and> map_of (pokemon_db s') (p_id r) = Some r
             \<and> next_id s' = next_id s + 1)"
  proof (intro allI impI)
    fix b c assume v: "validate b = Inr c"
    let ?r = "\<lparr>p_id = next_id s, p_name = c_name c, p_type = c_type c,
                p_power_level = c_power_level c, p_created_at = now\<rparr>"
    let ?s' = "\<lparr>pokemon_db = AList.update (next_id s) ?r (pokemon_db s),
                 next_id = next_id s + 1\<rparr>"
    have "handle (POST_pokemon b) now s = ((201, Record ?r), ?s')"
      by (simp add: v create_pokemon_eq)
    moreover have "map_of (pokemon_db ?s') (p_id ?r) = Some ?r"
      by (simp add: AList.update_conv')
    moreover have "\<forall>p \<in> set (created rs). p_id p < p_id ?r" using below by simp
    moreover have "next_id ?s' = next_id s + 1" by simp
    ultimately show "\<exists>r s'. handle (POST_pokemon b) now s = ((201, Record r), s')
             \<and> r = ?r
             \<and> (\<forall>p \<in> set (created rs). p_id p < p_id r)
             \<and> map_of (pokemon_db s') (p_id r) = Some r
             \<and> next_id s' = next_id s + 1"
      by blast
  qed
  from ids have "sorted_wrt (<) (map p_id (created rs))" "distinct (map p_id (created rs))"
    by simp_all
  with ids nxt post
  show "map p_id (created rs) = [1 .. ?n]
     \<and> sorted_wrt (<) (map p_id (created rs))
     \<and> distinct (map p_id (created rs))
     \<and> next_id s = 1 + ?n
     \<and> (\<forall>b c. validate b = Inr c \<longrightarrow>
          (\<exists>r s'. handle (POST_pokemon b) now s = ((201, Record r), s')
             \<and> r = \<lparr>p_id = next_id s, p_name = c_name c, p_type = c_type c,
                     p_power_level = c_power_level c, p_created_at = now\<rparr>
             \<and> (\<forall>p \<in> set (created rs). p_id p < p_id r)
             \<and> map_of (pokemon_db s') (p_id r) = Some r
             \<and> next_id s' = next_id s + 1))"
    by blast
qed

lemma validate_pikachu:
  "validate \<lparr>b_name = Some ''Pikachu'', b_type = Some ''Electric'', b_power_level = Some 85\<rparr>
     = Inr \<lparr>c_name = ''Pikachu'', c_type = ''Electric'', c_power_level = 85\<rparr>"
  by (simp add: validate_def validation_errors_def check_str_def check_power_level_def)

lemma validate_eevee:
  "validate \<lparr>b_name = Some ''Eevee'', b_type = Some ''Normal'', b_power_level = Some 40\<rparr>
     = Inr \<lparr>c_name = ''Eevee'', c_type = ''Normal'', c_power_level = 40\<rparr>"
  by (simp add: validate_def validation_errors_def check_str_def check_power_level_def)

lemma run_create_delete_create:
  "run [(POST_pokemon \<lparr>b_name = Some ''Pikachu'', b_type = Some ''Electric'',
                        b_power_level = Some 85\<rparr>, ''t0''),
        (DELETE_pokemon_id 1, ''t1''),
        (POST_pokemon \<lparr>b_name = Some ''Eevee'', b_type = Some ''Normal'',
                        b_power_level = Some 40\<rparr>, ''t2'')] initial
   = ([(201, Record \<lparr>p_id = 1, p_name = ''Pikachu'', p_type = ''Electric'',
                      p_power_level = 85, p_created_at = ''t0''\<rparr>),
       (204, No_Content),
       (201, Record \<lparr>p_id = 2, p_name = ''Eevee'', p_type = ''Normal'',
                      p_power_level = 40, p_created_at = ''t2''\<rparr>)],
      \<lparr>pokemon_db = [(2, \<lparr>p_id = 2, p_name = ''Eevee'', p_type = ''Normal'',
                            p_power_level = 40, p_created_at = ''t2''\<rparr>)],
        next_id = 3\<rparr>)"
  by (simp add: validate_pikachu validate_eevee create_pokemon_eq delete_pokemon_def initial_def)

text \<open>
  C4 on a run that creates Pikachu, deletes identifier 1 and creates Eevee: the
  identifiers handed out are 1 and 2, and the counter stands at 3.
\<close>

theorem sequential_ids_witness:
  "map p_id (created (fst (run
      [(POST_pokemon \<lparr>b_name = Some ''Pikachu'', b_type = Some ''Electric'',
                       b_power_level = Some 85\<rparr>, ''t0''),
       (DELETE_pokemon_id 1, ''t1''),
       (POST_pokemon \<lparr>b_name = Some ''Eevee'', b_type = Some ''Normal'',
                       b_power_level = Some 40\<rparr>, ''t2'')] initial))) = [1, 2]
   \<and> next_id (snd (run
      [(POST_pokemon \<lparr>b_name = Some ''Pikachu'', b_type = Some ''Electric'',
                       b_power_level = Some 85\<rparr>, ''t0''),
       (DELETE_pokemon_id 1, ''t1''),
       (POST_pokemon \<lparr>b_name = Some ''Eevee'', b_type = Some ''Normal'',
                       b_power_level = Some 40\<rparr>, ''t2'')] initial)) = 3"
proof -
  let ?reqs = "[(POST_pokemon \<lparr>b_name = Some ''Pikachu'', b_type = Some ''Electric'',
                       b_power_level = Some 85\<rparr>, ''t0''),
       (DELETE_pokemon_id 1, ''t1''),
       (POST_pokemon \<lparr>b_name = Some ''Eevee'', b_type = Some ''Normal'',
                       b_power_level = Some 40\<rparr>, ''t2'')]"
  have r: "run ?reqs initial = (fst (run ?reqs initial), snd (run ?reqs initial))" by simp
  have n: "length (created (fst (run ?reqs initial))) = 2"
    unfolding run_create_delete_create by simp
  from r sequential_ids [of ?reqs "fst (run ?reqs initial)" "snd (run ?reqs initial)"]
  have "map p_id (created (fst (run ?reqs initial)))
        = [1 .. int (length (created (fst (run ?reqs initial))))]
      \<and> next_id (snd (run ?reqs initial)) = 1 + int (length (created (fst (run ?reqs initial))))"
    by blast
  with n show ?thesis by (simp add: upto.simps)
qed

subsection \<open>C9: the counter stays above the identifiers in use\<close>

text \<open>
  C9: the counter is above every identifier in use at the start, each of the four
  handlers and each route keeps it so, and so it is in every registry a run of requests
  reaches, where the keys are moreover distinct. Where it holds, \<open>create_pokemon\<close>
  writes under an identifier not in use: the new entry is appended, every record stored
  before is still stored under its identifier, and the number of stored records grows
  by exactly one.
\<close>

theorem counter_above_ids_invariant:
  "counter_above_ids initial
   \<and> (counter_above_ids t \<longrightarrow>
        counter_above_ids (snd (list_pokemon t))
        \<and> counter_above_ids (snd (get_pokemon k t))
        \<and> counter_above_ids (snd (create_pokemon c now t))
        \<and> counter_above_ids (snd (delete_pokemon k t))
        \<and> counter_above_ids (snd (handle rq now t)))
   \<and> (run reqs initial = (rs, s) \<longrightarrow>
        counter_above_ids s \<and> distinct (map fst (pokemon_db s)))
   \<and> (counter_above_ids t \<longrightarrow>
        next_id t \<notin> ids t
        \<and> pokemon_db (snd (create_pokemon c now t))
            = pokemon_db t @ [(next_id t, fst (create_pokemon c now t))]
        \<and> (\<forall>j \<in> ids t. map_of (pokemon_db (snd (create_pokemon c now t))) j
                           = map_of (pokemon_db t) j)
        \<and> length (pokemon_db (snd (create_pokemon c now t))) = length (pokemon_db t) + 1
        \<and> card (ids (snd (create_pokemon c now t))) = card (ids t) + 1)"
proof (intro conjI impI)
  show "counter_above_ids initial" using initial_invariants by simp
next
  assume t: "counter_above_ids t"
  show "counter_above_ids (snd (handle rq now t))"
    using t by (rule handle_counter_above_ids) (rule surjective_pairing)
  show "counter_above_ids (snd (list_pokemon t))"
    using t by (simp add: list_pokemon_def)
  have "snd (get_pokemon k t) = t" by (simp add: get_pokemon_def split: option.splits)
  with t show "counter_above_ids (snd (get_pokemon k t))" by simp
  show "counter_above_ids (snd (delete_pokemon k t))"
  proof (cases "k \<in> ids t")
    case True
    with t delete_ids_subset [of k t] show ?thesis
      by (auto simp: delete_pokemon_present counter_above_ids_def)
  next
    case False
    with t show ?thesis by (simp add: delete_pokemon_absent)
  qed
  obtain r t' where c: "create_pokemon c now t = (r, t')" by (cases "create_pokemon c now t")
  from c have i: "ids t' = insert (next_id t) (ids t)" by (rule create_pokemon_ids)
  from c have n: "next_id t' = next_id t + 1" by (simp add: create_pokemon_next_id)
  from t i n have "counter_above_ids t'" by (auto simp: counter_above_ids_def)
  with c show "counter_above_ids (snd (create_pokemon c now t))" by simp
next
  assume "run reqs initial = (rs, s)"
  then show "counter_above_ids s" "distinct (map fst (pokemon_db s))"
    using run_invariants initial_invariants by blast+
next
  assume t: "counter_above_ids t"
  obtain r t' where c: "create_pokemon c now t = (r, t')" by (cases "create_pokemon c now t")
  show fresh: "next_id t \<notin> ids t" using t by (auto simp: counter_above_ids_def)
  from t c have db: "pokemon_db t' = pokemon_db t @ [(next_id t, r)]"
    by (rule create_pokemon_fresh)
  with c show "pokemon_db (snd (create_pokemon c now t))
            = pokemon_db t @ [(next_id t, fst (create_pokemon c now t))]"
    by simp
  from db c show "length (pokemon_db (snd (create_pokemon c now t))) = length (pokemon_db t) + 1"
    by simp
  have "\<forall>j \<in> ids t. map_of (pokemon_db t') j = map_of (pokemon_db t) j"
  proof
    fix j assume "j \<in> ids t"
    then obtain v where "map_of (pokemon_db t) j = Some v"
      using map_of_None_ids [of t j] by auto
    then show "map_of (pokemon_db t') j = map_of (pokemon_db t) j"
      by (simp add: db map_add_def)
  qed
  with c show "\<forall>j \<in> ids t. map_of (pokemon_db (snd (create_pokemon c now t))) j
                           = map_of (pokemon_db t) j"
    by simp
  from c have "ids t' = insert (next_id t) (ids t)" by (rule create_pokemon_ids)
  moreover have "finite (ids t)" by (simp add: ids_def)
  ultimately have "card (ids t') = card (ids t) + 1" using fresh by simp
  with c show "card (ids (snd (create_pokemon c now t))) = card (ids t) + 1" by simp
qed

text \<open>
  C9 on the registry reached by creating Pikachu, deleting identifier 1 and creating
  Eevee: the counter, at 3, is above the one identifier in use, and a further creation
  appends its record under 3.
\<close>

theorem counter_above_ids_invariant_witness:
  "counter_above_ids
      \<lparr>pokemon_db = [(2, \<lparr>p_id = 2, p_name = ''Eevee'', p_type = ''Normal'',
                            p_power_level = 40, p_created_at = ''t2''\<rparr>)],
        next_id = 3\<rparr>
   \<and> pokemon_db (snd (create_pokemon
        \<lparr>c_name = ''Mew'', c_type = ''Psychic'', c_power_level = 100\<rparr> ''t3''
        \<lparr>pokemon_db = [(2, \<lparr>p_id = 2, p_name = ''Eevee'', p_type = ''Normal'',
                              p_power_level = 40, p_created_at = ''t2''\<rparr>)],
          next_id = 3\<rparr>))
     = [(2, \<lparr>p_id = 2, p_name = ''Eevee'', p_type = ''Normal'',
              p_power_level = 40, p_created_at = ''t2''\<rparr>),
        (3, \<lparr>p_id = 3, p_name = ''Mew'', p_type = ''Psychic'',
              p_power_level = 100, p_created_at = ''t3''\<rparr>)]"
proof -
  let ?s = "\<lparr>pokemon_db = [(2, \<lparr>p_id = 2, p_name = ''Eevee'', p_type = ''Normal'',
                            p_power_level = 40, p_created_at = ''t2''\<rparr>)],
        next_id = 3\<rparr>"
  let ?c = "\<lparr>c_name = ''Mew'', c_type = ''Psychic'', c_power_level = 100\<rparr>"
  note inv = counter_above_ids_invariant [of ?s _ ?c "''t3''" _ _ _ ?s]
  from inv run_create_delete_create have s: "counter_above_ids ?s" by blast
  with inv have "pokemon_db (snd (create_pokemon ?c ''t3'' ?s))
      = pokemon_db ?s @ [(next_id ?s, fst (create_pokemon ?c ''t3'' ?s))]"
    by blast
  with s show ?thesis by (simp add: create_pokemon_eq)
qed

subsection \<open>C8: N creations, then List\<close>

lemma run_creates:
  assumes "\<forall>e \<in> set reqs. \<exists>b c. fst e = POST_pokemon b \<and> validate b = Inr c"
    and "counter_above_ids s0"
    and "run reqs s0 = (rs, s)"
  shows "rs = map (\<lambda>p. (201, Record p)) (created rs)
     \<and> length (created rs) = length reqs
     \<and> pokemon_db s = pokemon_db s0 @ map (\<lambda>p. (p_id p, p)) (created rs)"
  using assms
proof (induction reqs arbitrary: s0 rs)
  case Nil
  then show ?case by simp
next
  case (Cons e reqs)
  obtain rq now where e: "e = (rq, now)" by (cases e)
  from Cons.prems(1) e obtain b c where rq: "rq = POST_pokemon b" and v: "validate b = Inr c"
    by auto
  obtain p s1 where c: "create_pokemon c now s0 = (p, s1)" by (cases "create_pokemon c now s0")
  have h: "handle rq now s0 = ((201, Record p), s1)" by (simp add: rq v c)
  obtain rs' s2 where t: "run reqs s1 = (rs', s2)" by (cases "run reqs s1")
  from Cons.prems(3) e h t have rs: "rs = (201, Record p) # rs'" and s2: "s2 = s" by simp_all
  have inv: "counter_above_ids s1" using Cons.prems(2) h by (rule handle_counter_above_ids)
  from Cons.prems(1) have "\<forall>e \<in> set reqs. \<exists>b c. fst e = POST_pokemon b \<and> validate b = Inr c"
    by simp
  from Cons.IH [OF this inv t [unfolded s2]]
  have IH: "rs' = map (\<lambda>p. (201, Record p)) (created rs')"
    "length (created rs') = length reqs"
    "pokemon_db s = pokemon_db s1 @ map (\<lambda>p. (p_id p, p)) (created rs')"
    by simp_all
  from c have "p_id p = next_id s0" by (simp add: create_pokemon_next_id)
  moreover from Cons.prems(2) c have "pokemon_db s1 = pokemon_db s0 @ [(next_id s0, p)]"
    by (rule create_pokemon_fresh)
  ultimately show ?case using IH rs by simp
qed

text \<open>
  C8: serve N requests \<open>POST /pokemon\<close> with valid bodies from the start of the
  process. Each is answered with 201 and a record, so N records are created; their
  identifiers are 1, ..., N, pairwise distinct; and \<open>list_pokemon\<close> afterwards returns
  exactly the N created records, in the order of their creation, as \<open>GET /pokemon\<close>
  does with status 200.
\<close>

theorem creates_then_list:
  "(\<forall>e \<in> set reqs. \<exists>b c. fst e = POST_pokemon b \<and> validate b = Inr c) \<longrightarrow>
     (\<exists>rs s. run reqs initial = (rs, s)
        \<and> rs = map (\<lambda>p. (201, Record p)) (created rs)
        \<and> length (created rs) = length reqs
        \<and> map p_id (created rs) = [1 .. int (length reqs)]
        \<and> distinct (map p_id (created rs))
        \<and> list_pokemon s = (created rs, s)
        \<and> handle GET_pokemon now s = ((200, Records (created rs)), s))"
proof
  assume valid: "\<forall>e \<in> set reqs. \<exists>b c. fst e = POST_pokemon b \<and> validate b = Inr c"
  obtain rs s where run: "run reqs initial = (rs, s)" by (cases "run reqs initial")
  from initial_invariants have "counter_above_ids initial" by simp
  from run_creates [OF valid this run]
  have resp: "rs = map (\<lambda>p. (201, Record p)) (created rs)"
    and len: "length (created rs) = length reqs"
    and db: "pokemon_db s = map (\<lambda>p. (p_id p, p)) (created rs)"
    by (simp_all add: initial_def)
  from run_created_ids [OF run] len
  have ids: "map p_id (created rs) = [1 .. int (length reqs)]"
    by (simp add: initial_def)
  then have dist: "distinct (map p_id (created rs))" by simp
  from db have lst: "list_pokemon s = (created rs, s)"
    by (simp add: list_pokemon_def comp_def)
  then have "handle GET_pokemon now s = ((200, Records (created rs)), s)" by simp
  with run resp len ids dist lst
  show "\<exists>rs s. run reqs initial = (rs, s)
        \<and> rs = map (\<lambda>p. (201, Record p)) (created rs)
        \<and> length (created rs) = length reqs
        \<and> map p_id (created rs) = [1 .. int (length reqs)]
        \<and> distinct (map p_id (created rs))
        \<and> list_pokemon s = (created rs, s)
        \<and> handle GET_pokemon now s = ((200, Records (created rs)), s)"
    by blast
qed

lemma run_create_create:
  "run [(POST_pokemon \<lparr>b_name = Some ''Pikachu'', b_type = Some ''Electric'',
                        b_power_level = Some 85\<rparr>, ''t0''),
        (POST_pokemon \<lparr>b_name = Some ''Eevee'', b_type = Some ''Normal'',
                        b_power_level = Some 40\<rparr>, ''t1'')] initial
   = ([(201, Record \<lparr>p_id = 1, p_name = ''Pikachu'', p_type = ''Electric'',
                      p_power_level = 85, p_created_at = ''t0''\<rparr>),
       (201, Record \<lparr>p_id = 2, p_name = ''Eevee'', p_type = ''Normal'',
                      p_power_level = 40, p_created_at = ''t1''\<rparr>)],
      \<lparr>pokemon_db = [(1, \<lparr>p_id = 1, p_name = ''Pikachu'', p_type = ''Electric'',
                            p_power_level = 85, p_created_at = ''t0''\<rparr>),
                      (2, \<lparr>p_id = 2, p_name = ''Eevee'', p_type = ''Normal'',
                            p_power_level = 40, p_created_at = ''t1''\<rparr>)],
        next_id = 3\<rparr>)"
  by (simp add: validate_pikachu validate_eevee create_pokemon_eq initial_def)

text \<open>
  C8 for N = 2: Pikachu and Eevee are created in the empty registry, and the list
  afterwards is the two of them, with identifiers 1 and 2.
\<close>

theorem creates_then_list_witness:
  "list_pokemon (snd (run
      [(POST_pokemon \<lparr>b_name = Some ''Pikachu'', b_type = Some ''Electric'',
                       b_power_level = Some 85\<rparr>, ''t0''),
       (POST_pokemon \<lparr>b_name = Some ''Eevee'', b_type = Some ''Normal'',
                       b_power_level = Some 40\<rparr>, ''t1'')] initial))
   = ([\<lparr>p_id = 1, p_name = ''Pikachu'', p_type = ''Electric'',
         p_power_level = 85, p_created_at = ''t0''\<rparr>,
       \<lparr>p_id = 2, p_name = ''Eevee'', p_type = ''Normal'',
         p_power_level = 40, p_created_at = ''t1''\<rparr>],
      snd (run
      [(POST_pokemon \<lparr>b_name = Some ''Pikachu'', b_type = Some ''Electric'',
                       b_power_level = Some 85\<rparr>, ''t0''),
       (POST_pokemon \<lparr>b_name = Some ''Eevee'', b_type = Some ''Normal'',
                       b_power_level = Some 40\<rparr>, ''t1'')] initial))"
proof -
  let ?reqs = "[(POST_pokemon \<lparr>b_name = Some ''Pikachu'', b_type = Some ''Electric'',
                       b_power_level = Some 85\<rparr>, ''t0''),
       (POST_pokemon \<lparr>b_name = Some ''Eevee'', b_type = Some ''Normal'',
                       b_power_level = Some 40\<rparr>, ''t1'')]"
  have "\<forall>e \<in> set ?reqs. \<exists>b c. fst e = POST_pokemon b \<and> validate b = Inr c"
    using validate_pikachu validate_eevee by simp
  with creates_then_list [of ?reqs]
  obtain rs s where "run ?reqs initial = (rs, s)" and "list_pokemon s = (created rs, s)"
    by blast
  then show ?thesis unfolding run_create_create by auto
qed

end
